theory Spec2Isabelle
  imports Main "HOL-Library.Word"
begin

section \<open>The gosseract client: data model\<close>

text \<open>
  The client of \<^verbatim>\<open>client.go\<close> wraps one native Tesseract handle and at most one native
  image handle. Everything the client does to the native library goes through the cgo
  bridge (\<^verbatim>\<open>C.Init\<close>, \<^verbatim>\<open>C.SetImage\<close>, ...). The model records every such call, in
  order, in a list of calls (the history), and takes the answers of the library and of
  the file system from an environment whose answers may depend on the history so far.
  Freeing of marshalled C strings (\<^verbatim>\<open>C.free\<close> of a \<^verbatim>\<open>C.CString\<close>) is not recorded.
\<close>

type_synonym byte = "8 word"

text \<open>Native pointers that are not nil: \<^verbatim>\<open>C.TessBaseAPI\<close> and \<^verbatim>\<open>C.PixImage\<close>.\<close>

type_synonym TessBaseAPI = nat
type_synonym PixImage = nat

text \<open>
  \<^verbatim>\<open>os.Stat\<close> returns either an error, of which the code only asks \<^verbatim>\<open>os.IsNotExist\<close>,
  or a file info, of which the code only asks \<^verbatim>\<open>IsDir()\<close>.
\<close>

datatype os_error = ErrNotExist | ErrOther

datatype FileInfo = FileInfo (IsDir: bool)

fun os_IsNotExist :: "os_error + FileInfo \<Rightarrow> bool" where
  "os_IsNotExist (Inl ErrNotExist) = True"
| "os_IsNotExist (Inl ErrOther) = False"
| "os_IsNotExist (Inr info) = False"

text \<open>The calls over the bridge, with their arguments.\<close>

datatype call =
    C_Create
  | C_Clear TessBaseAPI
  | C_Free TessBaseAPI
  | C_DestroyPixImage PixImage
  | C_Init TessBaseAPI "string option" "string option"
  | C_SetImageFromBuffer TessBaseAPI "byte list"
  | C_SetImage TessBaseAPI string
  | C_SetPixImage TessBaseAPI PixImage
  | C_SetVariable TessBaseAPI string string
  | C_SetPageSegMode TessBaseAPI "32 word"
  | C_UTF8Text TessBaseAPI
  | C_HOCRText TessBaseAPI

text \<open>
  The environment: what each call that returns a value answers after a given history,
  what \<^verbatim>\<open>os.Stat\<close> answers, and the order in which a \<^verbatim>\<open>range\<close> over the variables
  map visits its entries (Go leaves that order unspecified).
\<close>

record env =
  Create_res :: "call list \<Rightarrow> TessBaseAPI"
  Init_res :: "call list \<Rightarrow> TessBaseAPI \<Rightarrow> string option \<Rightarrow> string option \<Rightarrow> 32 word"
  SetImageFromBuffer_res :: "call list \<Rightarrow> TessBaseAPI \<Rightarrow> byte list \<Rightarrow> PixImage option"
  SetImage_res :: "call list \<Rightarrow> TessBaseAPI \<Rightarrow> string \<Rightarrow> PixImage option"
  SetVariable_res :: "call list \<Rightarrow> TessBaseAPI \<Rightarrow> string \<Rightarrow> string \<Rightarrow> bool"
  UTF8Text_res :: "call list \<Rightarrow> TessBaseAPI \<Rightarrow> string"
  HOCRText_res :: "call list \<Rightarrow> TessBaseAPI \<Rightarrow> string"
  os_Stat :: "call list \<Rightarrow> string \<Rightarrow> os_error + FileInfo"
  rangeOrder :: "call list \<Rightarrow> (string \<times> string) list \<Rightarrow> (string \<times> string) list"

text \<open>
  The errors the client returns, named after their messages:
  \<^item> \<open>StatError\<close>: the error of \<^verbatim>\<open>os.Stat\<close>, returned as it is by \<^verbatim>\<open>SetConfigFile\<close>;
  \<^item> \<open>ConfigIsDirectory\<close>: "the specified config file path seems to be a directory";
  \<^item> \<open>InitFailed res\<close>: "failed to initialize TessBaseAPI with code res";
  \<^item> \<open>InvalidPath\<close>: "invalid path will be set";
  \<^item> \<open>FileDoesNotExist\<close>: "file does not exist";
  \<^item> \<open>SetVariableFailed key value\<close>: "failed to set variable with key(key):value(value)".
\<close>

datatype error =
    StatError os_error
  | ConfigIsDirectory
  | InitFailed "32 word"
  | InvalidPath
  | FileDoesNotExist
  | SetVariableFailed string string

text \<open>
  The struct \<^verbatim>\<open>Client\<close>. A nil \<^verbatim>\<open>pixImage\<close> is \<open>None\<close>; a nil byte slice and an empty
  one are both \<open>[]\<close> (the code only takes their length); the variables map is a list of
  entries with distinct keys; the page segmentation mode is a Go \<^verbatim>\<open>int\<close>.
\<close>

record Client =
  api :: TessBaseAPI
  pixImage :: "PixImage option"
  Initialized :: bool
  Trim :: bool
  TessdataPrefix :: "string option"
  Languages :: "string list"
  ImagePath :: string
  ImageData :: "byte list"
  Variables :: "(string \<times> string) list"
  PageSegMode :: "64 word option"
  ConfigFilePath :: string

section \<open>Standard library functions the client calls\<close>

text \<open>\<^verbatim>\<open>strings.Join(elems, sep)\<close>.\<close>

fun strings_Join :: "string list \<Rightarrow> string \<Rightarrow> string" where
  "strings_Join [] sep = []"
| "strings_Join [s] sep = s"
| "strings_Join (s # t # ss) sep = s @ sep @ strings_Join (t # ss) sep"

text \<open>
  \<^verbatim>\<open>strings.Trim(s, cutset)\<close>, on byte strings with a cutset of ASCII characters: all
  leading and all trailing characters that are in the cutset are removed.
\<close>

definition strings_Trim :: "string \<Rightarrow> string \<Rightarrow> string" where
  "strings_Trim s cutset =
     rev (dropWhile (\<lambda>c. c \<in> set cutset) (rev (dropWhile (\<lambda>c. c \<in> set cutset) s)))"

section \<open>The operations of the client\<close>

definition NewClient :: "env \<Rightarrow> call list \<Rightarrow> Client \<times> call list" where
  "NewClient e h =
     (\<lparr>api = Create_res e h, pixImage = None, Initialized = False, Trim = True,
       TessdataPrefix = None, Languages = [], ImagePath = [], ImageData = [],
       Variables = [], PageSegMode = None, ConfigFilePath = []\<rparr>,
      h @ [C_Create])"

text \<open>\<^verbatim>\<open>Close\<close> returns its named result \<^verbatim>\<open>err\<close>, which nothing assigns.\<close>

definition Close :: "Client \<Rightarrow> call list \<Rightarrow> error option \<times> Client \<times> call list" where
  "Close client h =
     (let h1 = h @ [C_Clear (api client)];
          h2 = h1 @ [C_Free (api client)]
      in case pixImage client of
           Some p \<Rightarrow> (None, client\<lparr>pixImage := None\<rparr>, h2 @ [C_DestroyPixImage p])
         | None \<Rightarrow> (None, client, h2))"

definition SetImage :: "Client \<Rightarrow> string \<Rightarrow> call list \<Rightarrow> Client \<times> call list" where
  "SetImage client imagepath h =
     (case pixImage client of
        Some p \<Rightarrow>
          (client\<lparr>pixImage := None, ImagePath := imagepath\<rparr>, h @ [C_DestroyPixImage p])
      | None \<Rightarrow> (client\<lparr>ImagePath := imagepath\<rparr>, h))"

definition SetImageFromBytes :: "Client \<Rightarrow> byte list \<Rightarrow> call list \<Rightarrow> Client \<times> call list" where
  "SetImageFromBytes client data h =
     (case pixImage client of
        Some p \<Rightarrow>
          (client\<lparr>pixImage := None, ImageData := data\<rparr>, h @ [C_DestroyPixImage p])
      | None \<Rightarrow> (client\<lparr>ImageData := data\<rparr>, h))"

definition SetLanguage :: "Client \<Rightarrow> string list \<Rightarrow> Client" where
  "SetLanguage client langs = client\<lparr>Initialized := False, Languages := langs\<rparr>"

definition SetConfigFile :: "env \<Rightarrow> Client \<Rightarrow> string \<Rightarrow> call list \<Rightarrow> error option \<times> Client" where
  "SetConfigFile e client fpath h =
     (case os_Stat e h fpath of
        Inl err \<Rightarrow> (Some (StatError err), client)
      | Inr info \<Rightarrow>
          if IsDir info then (Some ConfigIsDirectory, client)
          else (None, client\<lparr>Initialized := False, ConfigFilePath := fpath\<rparr>))"

text \<open>The two marshalled arguments of \<^verbatim>\<open>C.Init\<close>; a nil \<^verbatim>\<open>*C.char\<close> is \<open>None\<close>.\<close>

definition charLangs :: "Client \<Rightarrow> string option" where
  "charLangs client =
     (if length (Languages client) \<noteq> 0 then Some (strings_Join (Languages client) ''+'')
      else None)"

definition charConfig :: "env \<Rightarrow> Client \<Rightarrow> call list \<Rightarrow> string option" where
  "charConfig e client h =
     (case os_Stat e h (ConfigFilePath client) of
        Inr info \<Rightarrow> Some (ConfigFilePath client)
      | Inl err \<Rightarrow> None)"

definition init :: "env \<Rightarrow> Client \<Rightarrow> call list \<Rightarrow> error option \<times> Client \<times> call list" where
  "init e client h =
     (if Initialized client then (None, client, h)
      else
        let langs = charLangs client;
            config = charConfig e client h;
            res = Init_res e h (api client) langs config;
            h1 = h @ [C_Init (api client) langs config]
        in if res \<noteq> 0 then (Some (InitFailed res), client, h1)
           else (None, client\<lparr>Initialized := True\<rparr>, h1))"

definition bind :: "env \<Rightarrow> Client \<Rightarrow> string \<Rightarrow> string \<Rightarrow> call list \<Rightarrow> bool \<times> call list" where
  "bind e client key val h =
     (SetVariable_res e h (api client) key val, h @ [C_SetVariable (api client) key val])"

text \<open>
  \<^verbatim>\<open>prepare\<close> in its three steps. First the image (the \<^verbatim>\<open>if client.pixImage == nil\<close>
  statement): the native call may answer nil, which is stored as it is.
\<close>

definition prepare_image :: "env \<Rightarrow> Client \<Rightarrow> call list \<Rightarrow> error option \<times> Client \<times> call list" where
  "prepare_image e client h =
     (case pixImage client of
        None \<Rightarrow>
          if length (ImageData client) > 0 then
            let img = SetImageFromBuffer_res e h (api client) (ImageData client)
            in (None, client\<lparr>pixImage := img\<rparr>,
                h @ [C_SetImageFromBuffer (api client) (ImageData client)])
          else if ImagePath client = [] then (Some InvalidPath, client, h)
          else if os_IsNotExist (os_Stat e h (ImagePath client)) then
            (Some FileDoesNotExist, client, h)
          else
            let img = SetImage_res e h (api client) (ImagePath client)
            in (None, client\<lparr>pixImage := img\<rparr>, h @ [C_SetImage (api client) (ImagePath client)])
      | Some p \<Rightarrow> (None, client, h @ [C_SetPixImage (api client) p]))"

text \<open>Then the loop over the variables, which stops at the first one the engine rejects.\<close>

fun prepare_variables ::
  "env \<Rightarrow> Client \<Rightarrow> (string \<times> string) list \<Rightarrow> call list \<Rightarrow> error option \<times> call list" where
  "prepare_variables e client [] h = (None, h)"
| "prepare_variables e client ((key, val) # kvs) h =
     (case bind e client key val h of
        (ok, h1) \<Rightarrow>
          if \<not> ok then (Some (SetVariableFailed key val), h1)
          else prepare_variables e client kvs h1)"

text \<open>Then the page segmentation mode, converted to a C \<^verbatim>\<open>int\<close>.\<close>

definition prepare :: "env \<Rightarrow> Client \<Rightarrow> call list \<Rightarrow> error option \<times> Client \<times> call list" where
  "prepare e client h =
     (case prepare_image e client h of
        (Some err, client1, h1) \<Rightarrow> (Some err, client1, h1)
      | (None, client1, h1) \<Rightarrow>
          (case prepare_variables e client1 (rangeOrder e h1 (Variables client1)) h1 of
             (Some err, h2) \<Rightarrow> (Some err, client1, h2)
           | (None, h2) \<Rightarrow>
               (case PageSegMode client1 of
                  Some mode \<Rightarrow> (None, client1, h2 @ [C_SetPageSegMode (api client1) (ucast mode)])
                | None \<Rightarrow> (None, client1, h2))))"

text \<open>
  The two extractions return the pair \<^verbatim>\<open>(out, err)\<close> of Go; \<^verbatim>\<open>out\<close> is the empty string
  when an error is returned.
\<close>

definition Text :: "env \<Rightarrow> Client \<Rightarrow> call list \<Rightarrow> (string \<times> error option) \<times> Client \<times> call list" where
  "Text e client h =
     (case init e client h of
        (Some err, client1, h1) \<Rightarrow> (([], Some err), client1, h1)
      | (None, client1, h1) \<Rightarrow>
          (case prepare e client1 h1 of
             (Some err, client2, h2) \<Rightarrow> (([], Some err), client2, h2)
           | (None, client2, h2) \<Rightarrow>
               let out = UTF8Text_res e h2 (api client2);
                   h3 = h2 @ [C_UTF8Text (api client2)]
               in if Trim client2 then ((strings_Trim out [CHR 0x0A], None), client2, h3)
                  else ((out, None), client2, h3)))"

definition HOCRText :: "env \<Rightarrow> Client \<Rightarrow> call list \<Rightarrow> (string \<times> error option) \<times> Client \<times> call list" where
  "HOCRText e client h =
     (case init e client h of
        (Some err, client1, h1) \<Rightarrow> (([], Some err), client1, h1)
      | (None, client1, h1) \<Rightarrow>
          (case prepare e client1 h1 of
             (Some err, client2, h2) \<Rightarrow> (([], Some err), client2, h2)
           | (None, client2, h2) \<Rightarrow>
               ((HOCRText_res e h2 (api client2), None), client2,
                h2 @ [C_HOCRText (api client2)])))"

section \<open>Kinds of calls\<close>

text \<open>
  The calls that initialise the engine, the calls that extract a result, and the calls
  that \<^verbatim>\<open>prepare\<close> makes to configure the engine for one extraction.
\<close>

fun is_Init :: "call \<Rightarrow> bool" where
  "is_Init (C_Init a langs config) = True"
| "is_Init c = False"

fun is_extraction :: "call \<Rightarrow> bool" where
  "is_extraction (C_UTF8Text a) = True"
| "is_extraction (C_HOCRText a) = True"
| "is_extraction c = False"

fun configures :: "call \<Rightarrow> bool" where
  "configures (C_SetImageFromBuffer a d) = True"
| "configures (C_SetImage a p) = True"
| "configures (C_SetPixImage a p) = True"
| "configures (C_SetVariable a k v) = True"
| "configures (C_SetPageSegMode a m) = True"
| "configures c = False"

section \<open>Concrete environments and clients\<close>

text \<open>
  An engine that accepts everything and answers a fixed text, on a file system with the
  files \<^verbatim>\<open>sample.png\<close> and \<^verbatim>\<open>ocr.conf\<close> and the directory \<^verbatim>\<open>tessdata\<close>; the same with an
  engine whose initialisation fails with code -1. Then the client that \<^verbatim>\<open>NewClient\<close>
  returns, that client after \<^verbatim>\<open>SetImage("sample.png")\<close>, and the client after
  \<^verbatim>\<open>SetImageFromBytes\<close> and one extraction, which holds a bound image handle.
\<close>

definition engine_ok :: env where
  "engine_ok =
     \<lparr>Create_res = (\<lambda>h. 1),
      Init_res = (\<lambda>h a langs config. 0),
      SetImageFromBuffer_res = (\<lambda>h a d. Some 2),
      SetImage_res = (\<lambda>h a p. Some 3),
      SetVariable_res = (\<lambda>h a k v. True),
      UTF8Text_res = (\<lambda>h a. CHR 0x0A # ''Hello World'' @ [CHR 0x0A]),
      HOCRText_res = (\<lambda>h a. CHR 0x0A # ''<p>Hello World</p>'' @ [CHR 0x0A]),
      os_Stat = (\<lambda>h p. if p = ''sample.png'' \<or> p = ''ocr.conf'' then Inr (FileInfo False)
                        else if p = ''tessdata'' then Inr (FileInfo True)
                        else Inl ErrNotExist),
      rangeOrder = (\<lambda>h kvs. kvs)\<rparr>"

definition engine_broken :: env where
  "engine_broken = engine_ok\<lparr>Init_res := (\<lambda>h a langs config. - 1)\<rparr>"

definition fresh :: Client where
  "fresh = fst (NewClient engine_ok [])"

definition with_path :: Client where
  "with_path = fst (SetImage fresh ''sample.png'' [C_Create])"

definition bound :: Client where
  "bound =
     fst (snd (Text engine_ok (fst (SetImageFromBytes fresh [1, 2, 3] [C_Create])) [C_Create]))"

section \<open>What each step calls and changes\<close>

text \<open>The concrete clients and the answers of the concrete environments, evaluated.\<close>

lemma fresh_simps: "fresh = \<lparr>api = 1, pixImage = None, Initialized = False, Trim = True,
       TessdataPrefix = None, Languages = [], ImagePath = [], ImageData = [],
       Variables = [], PageSegMode = None, ConfigFilePath = []\<rparr>"
  by (simp add: fresh_def NewClient_def engine_ok_def)

lemma with_path_simps: "with_path = \<lparr>api = 1, pixImage = None, Initialized = False, Trim = True,
       TessdataPrefix = None, Languages = [], ImagePath = ''sample.png'', ImageData = [],
       Variables = [], PageSegMode = None, ConfigFilePath = []\<rparr>"
  by (simp add: with_path_def SetImage_def fresh_simps)

lemma bound_simps: "bound = \<lparr>api = 1, pixImage = Some 2, Initialized = True, Trim = True,
       TessdataPrefix = None, Languages = [], ImagePath = [], ImageData = [1, 2, 3],
       Variables = [], PageSegMode = None, ConfigFilePath = []\<rparr>"
  by (simp add: bound_def Text_def init_def prepare_def prepare_image_def charLangs_def
      charConfig_def SetImageFromBytes_def Let_def fresh_simps engine_ok_def)

lemma with_path_fields:
  "api with_path = 1" "pixImage with_path = None" "\<not> Initialized with_path" "Trim with_path"
  "Languages with_path = []" "ImagePath with_path = ''sample.png''" "ImageData with_path = []"
  "Variables with_path = []" "PageSegMode with_path = None" "ConfigFilePath with_path = []"
  by (simp_all add: with_path_simps)

lemma engine_ok_Stat:
  "os_Stat engine_ok h ''missing.conf'' = Inl ErrNotExist"
  "os_Stat engine_ok h ''tessdata'' = Inr (FileInfo True)"
  "os_Stat engine_ok h ''ocr.conf'' = Inr (FileInfo False)"
  "os_Stat engine_ok h ''sample.png'' = Inr (FileInfo False)"
  "os_Stat engine_ok h [] = Inl ErrNotExist"
  by (simp_all add: engine_ok_def)

lemma engine_ok_answers:
  "Init_res engine_ok h a l g = 0"
  "SetImageFromBuffer_res engine_ok h a d = Some 2"
  "SetImage_res engine_ok h a p = Some 3"
  "UTF8Text_res engine_ok h a = CHR 0x0A # ''Hello World'' @ [CHR 0x0A]"
  "HOCRText_res engine_ok h a = CHR 0x0A # ''<p>Hello World</p>'' @ [CHR 0x0A]"
  "rangeOrder engine_ok h kvs = kvs"
  by (simp_all add: engine_ok_def)

lemma with_path_init_args:
  "charLangs with_path = None" "charConfig engine_ok with_path h = None"
  by (simp_all add: charLangs_def charConfig_def with_path_fields engine_ok_Stat)

text \<open>
  \<^verbatim>\<open>init\<close> either does nothing or makes the one call of \<^verbatim>\<open>C.Init\<close>; \<^verbatim>\<open>prepare\<close> changes
  no field but \<^verbatim>\<open>pixImage\<close> and makes configuring calls only.
\<close>

lemma configures_not_Init: "configures x \<Longrightarrow> \<not> is_Init x"
  by (cases x) simp_all

lemma filter_configures_Init:
  "\<forall>x\<in>set hs. configures x \<Longrightarrow> filter is_Init hs = []"
  by (induction hs) (auto dest: configures_not_Init)

lemma init_result:
  assumes "init e c h = (r, c1, h1)"
  shows "(Initialized c \<and> r = None \<and> c1 = c \<and> h1 = h)
       \<or> (\<not> Initialized c
          \<and> h1 = h @ [C_Init (api c) (charLangs c) (charConfig e c h)]
          \<and> (if Init_res e h (api c) (charLangs c) (charConfig e c h) = 0
              then r = None \<and> c1 = c\<lparr>Initialized := True\<rparr>
              else r = Some (InitFailed (Init_res e h (api c) (charLangs c) (charConfig e c h)))
                   \<and> c1 = c))"
  using assms by (auto simp: init_def Let_def split: if_splits)

lemma prepare_image_result:
  assumes "prepare_image e c h = (r, c1, h1)"
  shows "c1 = c\<lparr>pixImage := pixImage c1\<rparr> \<and> (\<exists>hs. h1 = h @ hs \<and> (\<forall>x\<in>set hs. configures x))"
  using assms by (auto simp: prepare_image_def Let_def split: option.splits if_splits)

lemma prepare_variables_result:
  "prepare_variables e c kvs h = (r, h1) \<Longrightarrow> \<exists>hs. h1 = h @ hs \<and> (\<forall>x\<in>set hs. configures x)"
proof (induction kvs arbitrary: h)
  case Nil
  then show ?case by simp
next
  case (Cons kv kvs)
  obtain key val where kv: "kv = (key, val)" by (cases kv)
  show ?case
  proof (cases "SetVariable_res e h (api c) key val")
    case True
    with Cons.prems kv
    have "prepare_variables e c kvs (h @ [C_SetVariable (api c) key val]) = (r, h1)"
      by (simp add: bind_def)
    from Cons.IH [OF this] obtain hs where
      "h1 = (h @ [C_SetVariable (api c) key val]) @ hs" "\<forall>x\<in>set hs. configures x"
      by blast
    then have "h1 = h @ (C_SetVariable (api c) key val # hs)
             \<and> (\<forall>x\<in>set (C_SetVariable (api c) key val # hs). configures x)"
      by simp
    then show ?thesis by blast
  next
    case False
    with Cons.prems kv have "h1 = h @ [C_SetVariable (api c) key val]"
      by (simp add: bind_def)
    then have "h1 = h @ [C_SetVariable (api c) key val]
             \<and> (\<forall>x\<in>set [C_SetVariable (api c) key val]. configures x)"
      by simp
    then show ?thesis by blast
  qed
qed

lemma prepare_result:
  assumes "prepare e c h = (r, c1, h1)"
  shows "c1 = c\<lparr>pixImage := pixImage c1\<rparr> \<and> (\<exists>hs. h1 = h @ hs \<and> (\<forall>x\<in>set hs. configures x))"
proof -
  obtain r0 c0 h0 where img: "prepare_image e c h = (r0, c0, h0)"
    by (cases "prepare_image e c h") auto
  from prepare_image_result [OF img] obtain hs0 where
    c0: "c0 = c\<lparr>pixImage := pixImage c0\<rparr>" and h0: "h0 = h @ hs0" and hs0: "\<forall>x\<in>set hs0. configures x"
    by blast
  show ?thesis
  proof (cases r0)
    case (Some err)
    with assms img have "c1 = c0" "h1 = h0" by (simp_all add: prepare_def)
    with c0 h0 hs0 show ?thesis by blast
  next
    case None
    obtain rv hv where vars: "prepare_variables e c0 (rangeOrder e h0 (Variables c0)) h0 = (rv, hv)"
      by (cases "prepare_variables e c0 (rangeOrder e h0 (Variables c0)) h0") auto
    from prepare_variables_result [OF vars] obtain hs1 where
      hv: "hv = h0 @ hs1" and hs1: "\<forall>x\<in>set hs1. configures x"
      by blast
    from assms img None vars have c1: "c1 = c0"
      by (auto simp: prepare_def split: option.splits)
    from assms img None vars
    have "h1 = hv \<or> (\<exists>m. h1 = hv @ [C_SetPageSegMode (api c0) m])"
      by (auto simp: prepare_def split: option.splits)
    then show ?thesis
    proof
      assume "h1 = hv"
      with hv h0 have "h1 = h @ (hs0 @ hs1)" by simp
      moreover from hs0 hs1 have "\<forall>x\<in>set (hs0 @ hs1). configures x" by auto
      ultimately show ?thesis using c0 c1 by blast
    next
      assume "\<exists>m. h1 = hv @ [C_SetPageSegMode (api c0) m]"
      then obtain m where "h1 = hv @ [C_SetPageSegMode (api c0) m]" ..
      with hv h0 have "h1 = h @ (hs0 @ hs1 @ [C_SetPageSegMode (api c0) m])" by simp
      moreover from hs0 hs1
      have "\<forall>x\<in>set (hs0 @ hs1 @ [C_SetPageSegMode (api c0) m]). configures x" by auto
      ultimately show ?thesis using c0 c1 by blast
    qed
  qed
qed

lemma prepare_fields:
  assumes "prepare e c h = (r, c1, h1)"
  shows "\<exists>p hs. c1 = c\<lparr>pixImage := p\<rparr> \<and> h1 = h @ hs \<and> (\<forall>x\<in>set hs. configures x)"
  using prepare_result [OF assms] by blast

text \<open>The two extractions, step by step, and the calls they add to the history.\<close>

lemma Text_result:
  assumes "Text e c h = (r, c2, h2)"
  shows "\<exists>r0 c1 h1. init e c h = (r0, c1, h1)
           \<and> ((\<exists>err. r0 = Some err \<and> r = ([], Some err) \<and> c2 = c1 \<and> h2 = h1)
              \<or> (r0 = None
                 \<and> (\<exists>rp hp. prepare e c1 h1 = (rp, c2, hp)
                      \<and> ((\<exists>err. rp = Some err \<and> r = ([], Some err) \<and> h2 = hp)
                         \<or> (rp = None \<and> h2 = hp @ [C_UTF8Text (api c2)]
                            \<and> r = (if Trim c2 then strings_Trim (UTF8Text_res e hp (api c2)) [CHR 0x0A]
                                     else UTF8Text_res e hp (api c2), None))))))"
  using assms
  by (auto simp: Text_def Let_def split: prod.splits option.splits if_splits)

lemma HOCRText_result:
  assumes "HOCRText e c h = (r, c2, h2)"
  shows "\<exists>r0 c1 h1. init e c h = (r0, c1, h1)
           \<and> ((\<exists>err. r0 = Some err \<and> r = ([], Some err) \<and> c2 = c1 \<and> h2 = h1)
              \<or> (r0 = None
                 \<and> (\<exists>rp hp. prepare e c1 h1 = (rp, c2, hp)
                      \<and> ((\<exists>err. rp = Some err \<and> r = ([], Some err) \<and> h2 = hp)
                         \<or> (rp = None \<and> h2 = hp @ [C_HOCRText (api c2)]
                            \<and> r = (HOCRText_res e hp (api c2), None))))))"
  using assms
  by (auto simp: HOCRText_def Let_def split: prod.splits option.splits if_splits)

lemma Text_history:
  assumes "Text e c h = (r, c2, h2)"
  shows "\<exists>hs. h2 = h @ (if Initialized c then []
                         else [C_Init (api c) (charLangs c) (charConfig e c h)]) @ hs
              \<and> filter is_Init hs = []
              \<and> api c2 = api c \<and> Trim c2 = Trim c
              \<and> Initialized c2 =
                  (Initialized c \<or> Init_res e h (api c) (charLangs c) (charConfig e c h) = 0)"
proof -
  from Text_result [OF assms] obtain r0 c1 h1 where
    i: "init e c h = (r0, c1, h1)" and
    t: "(\<exists>err. r0 = Some err \<and> r = ([], Some err) \<and> c2 = c1 \<and> h2 = h1)
        \<or> (r0 = None \<and> (\<exists>rp hp. prepare e c1 h1 = (rp, c2, hp)
              \<and> ((\<exists>err. rp = Some err \<and> r = ([], Some err) \<and> h2 = hp)
                  \<or> (rp = None \<and> h2 = hp @ [C_UTF8Text (api c2)]
                      \<and> r = (if Trim c2 then strings_Trim (UTF8Text_res e hp (api c2)) [CHR 0x0A]
                               else UTF8Text_res e hp (api c2), None)))))"
    by blast
  let ?i = "if Initialized c then [] else [C_Init (api c) (charLangs c) (charConfig e c h)]"
  from init_result [OF i] have h1: "h1 = h @ ?i"
    and c1: "api c1 = api c" "Trim c1 = Trim c"
    and ok: "r0 = None \<Longrightarrow> Initialized c1"
      "Initialized c1 = (Initialized c \<or> Init_res e h (api c) (charLangs c) (charConfig e c h) = 0)"
    by (auto split: if_splits)
  from t show ?thesis
  proof
    assume "\<exists>err. r0 = Some err \<and> r = ([], Some err) \<and> c2 = c1 \<and> h2 = h1"
    with h1 c1 ok have "h2 = h @ ?i @ [] \<and> filter is_Init [] = [] \<and> api c2 = api c
        \<and> Trim c2 = Trim c
        \<and> Initialized c2 =
            (Initialized c \<or> Init_res e h (api c) (charLangs c) (charConfig e c h) = 0)"
      by auto
    then show ?thesis by blast
  next
    assume "r0 = None \<and> (\<exists>rp hp. prepare e c1 h1 = (rp, c2, hp)
              \<and> ((\<exists>err. rp = Some err \<and> r = ([], Some err) \<and> h2 = hp)
                  \<or> (rp = None \<and> h2 = hp @ [C_UTF8Text (api c2)]
                      \<and> r = (if Trim c2 then strings_Trim (UTF8Text_res e hp (api c2)) [CHR 0x0A]
                               else UTF8Text_res e hp (api c2), None))))"
    then obtain rp hp where p: "prepare e c1 h1 = (rp, c2, hp)"
      and h2: "h2 = hp \<or> h2 = hp @ [C_UTF8Text (api c2)]"
      by blast
    from prepare_fields [OF p] obtain q hs where
      c2: "c2 = c1\<lparr>pixImage := q\<rparr>" and hp: "hp = h1 @ hs" and hs: "\<forall>x\<in>set hs. configures x"
      by blast
    from hs have f: "filter is_Init hs = []" by (rule filter_configures_Init)
    from c2 c1 ok have fields: "api c2 = api c \<and> Trim c2 = Trim c
        \<and> Initialized c2 =
            (Initialized c \<or> Init_res e h (api c) (charLangs c) (charConfig e c h) = 0)"
      by simp
    from h2 show ?thesis
    proof
      assume "h2 = hp"
      with hp h1 f have "h2 = h @ ?i @ hs \<and> filter is_Init hs = []" by simp
      with fields show ?thesis by blast
    next
      assume "h2 = hp @ [C_UTF8Text (api c2)]"
      with hp h1 f have "h2 = h @ ?i @ (hs @ [C_UTF8Text (api c2)])
          \<and> filter is_Init (hs @ [C_UTF8Text (api c2)]) = []"
        by simp
      with fields show ?thesis by blast
    qed
  qed
qed

lemma HOCRText_history:
  assumes "HOCRText e c h = (r, c2, h2)"
  shows "\<exists>hs. h2 = h @ (if Initialized c then []
                         else [C_Init (api c) (charLangs c) (charConfig e c h)]) @ hs
              \<and> filter is_Init hs = []"
proof -
  from HOCRText_result [OF assms] obtain r0 c1 h1 where
    i: "init e c h = (r0, c1, h1)" and
    t: "(c2 = c1 \<and> h2 = h1)
        \<or> (\<exists>rp hp. prepare e c1 h1 = (rp, c2, hp)
              \<and> (h2 = hp \<or> h2 = hp @ [C_HOCRText (api c2)]))"
    by blast
  let ?i = "if Initialized c then [] else [C_Init (api c) (charLangs c) (charConfig e c h)]"
  from init_result [OF i] have h1: "h1 = h @ ?i"
    by (auto split: if_splits)
  from t show ?thesis
  proof
    assume "c2 = c1 \<and> h2 = h1"
    with h1 have "h2 = h @ ?i @ [] \<and> filter is_Init [] = []" by simp
    then show ?thesis by blast
  next
    assume "\<exists>rp hp. prepare e c1 h1 = (rp, c2, hp)
              \<and> (h2 = hp \<or> h2 = hp @ [C_HOCRText (api c2)])"
    then obtain rp hp where p: "prepare e c1 h1 = (rp, c2, hp)"
      and h2: "h2 = hp \<or> h2 = hp @ [C_HOCRText (api c2)]"
      by blast
    from prepare_fields [OF p] obtain q hs where
      hp: "hp = h1 @ hs" and hs: "\<forall>x\<in>set hs. configures x"
      by blast
    from hs have f: "filter is_Init hs = []" by (rule filter_configures_Init)
    from h2 show ?thesis
    proof
      assume "h2 = hp"
      with hp h1 f have "h2 = h @ ?i @ hs \<and> filter is_Init hs = []" by simp
      then show ?thesis by blast
    next
      assume "h2 = hp @ [C_HOCRText (api c2)]"
      with hp h1 f have "h2 = h @ ?i @ (hs @ [C_HOCRText (api c2)])
          \<and> filter is_Init (hs @ [C_HOCRText (api c2)]) = []"
        by simp
      then show ?thesis by blast
    qed
  qed
qed

text \<open>The trim flag is carried through \<^verbatim>\<open>init\<close> and \<^verbatim>\<open>prepare\<close> and read by neither.\<close>

lemma prepare_variables_client:
  "api c' = api c \<Longrightarrow> prepare_variables e c' kvs h = prepare_variables e c kvs h"
  by (induction kvs arbitrary: h) (auto simp: bind_def)

lemma prepare_Trim:
  "prepare e (c\<lparr>Trim := t\<rparr>) h =
     (case prepare e c h of (r, c1, h1) \<Rightarrow> (r, c1\<lparr>Trim := t\<rparr>, h1))"
proof -
  obtain r0 c0 h0 where img: "prepare_image e c h = (r0, c0, h0)"
    by (cases "prepare_image e c h") auto
  then have img': "prepare_image e (c\<lparr>Trim := t\<rparr>) h = (r0, c0\<lparr>Trim := t\<rparr>, h0)"
    by (auto simp: prepare_image_def Let_def split: option.splits if_splits)
  have v: "prepare_variables e (c0\<lparr>Trim := t\<rparr>) kvs g = prepare_variables e c0 kvs g" for kvs g
    by (rule prepare_variables_client) simp
  show ?thesis
    by (simp add: prepare_def img img' v split: option.splits prod.splits)
qed

lemma init_Trim:
  "init e (c\<lparr>Trim := t\<rparr>) h =
     (case init e c h of (r, c1, h1) \<Rightarrow> (r, c1\<lparr>Trim := t\<rparr>, h1))"
proof -
  have l: "charLangs (c\<lparr>Trim := t\<rparr>) = charLangs c" by (simp add: charLangs_def)
  have g: "charConfig e (c\<lparr>Trim := t\<rparr>) h = charConfig e c h"
    by (simp add: charConfig_def split: sum.splits)
  show ?thesis by (simp add: init_def Let_def l g)
qed

text \<open>
  Trimming with a cutset of one character takes away a run of that character at each
  end, and what is left neither starts nor ends with it.
\<close>

lemma takeWhile_eq_replicate: "takeWhile (\<lambda>c. c = x) s = replicate (length (takeWhile (\<lambda>c. c = x) s)) x"
  by (induction s) auto

lemma strings_Trim_single:
  "\<exists>a b. s = replicate a x @ strings_Trim s [x] @ replicate b x"
proof -
  let ?P = "\<lambda>c. c = x"
  let ?d = "dropWhile ?P s"
  have t: "strings_Trim s [x] = rev (dropWhile ?P (rev ?d))"
    by (simp add: strings_Trim_def)
  have "?d = rev (takeWhile ?P (rev ?d) @ dropWhile ?P (rev ?d))"
    by (simp only: takeWhile_dropWhile_id rev_rev_ident)
  also have "\<dots> = rev (dropWhile ?P (rev ?d)) @ rev (takeWhile ?P (rev ?d))"
    by (simp only: rev_append)
  finally have d: "?d = strings_Trim s [x] @ rev (takeWhile ?P (rev ?d))"
    by (simp only: t)
  have r: "rev (takeWhile ?P (rev ?d)) = replicate (length (takeWhile ?P (rev ?d))) x"
    by (subst takeWhile_eq_replicate) simp
  have "s = takeWhile ?P s @ ?d" by simp
  then have "s = replicate (length (takeWhile ?P s)) x @ ?d"
    using takeWhile_eq_replicate [of x s] by simp
  with d r have "s = replicate (length (takeWhile ?P s)) x @ strings_Trim s [x]
      @ replicate (length (takeWhile ?P (rev ?d))) x"
    by simp
  then show ?thesis by blast
qed

lemma strings_Trim_single_ends:
  assumes "strings_Trim s [x] \<noteq> []"
  shows "hd (strings_Trim s [x]) \<noteq> x \<and> last (strings_Trim s [x]) \<noteq> x"
proof -
  let ?P = "\<lambda>c. c = x"
  let ?d = "dropWhile ?P s"
  let ?t = "dropWhile ?P (rev ?d)"
  have t: "strings_Trim s [x] = rev ?t"
    by (simp add: strings_Trim_def)
  with assms have ne: "?t \<noteq> []" by simp
  then have "\<not> ?P (hd ?t)" by (rule hd_dropWhile)
  with ne t have l: "last (strings_Trim s [x]) \<noteq> x" by (simp add: last_rev)
  have dne: "?d \<noteq> []"
  proof
    assume "?d = []"
    then have "?t = []" by (simp only: rev.simps dropWhile.simps)
    with ne show False by simp
  qed
  then have hd: "\<not> ?P (hd ?d)" by (rule hd_dropWhile)
  have "?d = rev (takeWhile ?P (rev ?d) @ ?t)"
    by (simp only: takeWhile_dropWhile_id rev_rev_ident)
  also have "\<dots> = rev ?t @ rev (takeWhile ?P (rev ?d))"
    by (simp only: rev_append)
  finally have "hd ?d = hd (rev ?t @ rev (takeWhile ?P (rev ?d)))" by (rule arg_cong)
  also have "\<dots> = hd (rev ?t)" using ne by (simp only: hd_append rev_is_Nil_conv if_False)
  finally have "hd (strings_Trim s [x]) = hd ?d" by (simp only: t)
  with hd l show ?thesis by simp
qed

text \<open>Extractions on the concrete engine.\<close>

lemma Text_ok_first:
  "Text engine_ok with_path h =
     ((''Hello World'', None), with_path\<lparr>pixImage := Some 3, Initialized := True\<rparr>,
      h @ [C_Init 1 None None, C_SetImage 1 ''sample.png'', C_UTF8Text 1])"
  by (simp add: Text_def init_def prepare_def prepare_image_def strings_Trim_def Let_def
      with_path_fields with_path_init_args engine_ok_answers engine_ok_Stat)

lemma Text_ok_untrimmed:
  "Text engine_ok (with_path\<lparr>Trim := False\<rparr>) h =
     ((CHR 0x0A # ''Hello World'' @ [CHR 0x0A], None),
      with_path\<lparr>pixImage := Some 3, Initialized := True, Trim := False\<rparr>,
      h @ [C_Init 1 None None, C_SetImage 1 ''sample.png'', C_UTF8Text 1])"
  by (simp add: Text_def init_def prepare_def prepare_image_def charLangs_def charConfig_def
      Let_def with_path_fields engine_ok_answers engine_ok_Stat)

lemma Text_ok_second:
  "Text engine_ok (with_path\<lparr>pixImage := Some 3, Initialized := True\<rparr>) h =
     ((''Hello World'', None), with_path\<lparr>pixImage := Some 3, Initialized := True\<rparr>,
      h @ [C_SetPixImage 1 3, C_UTF8Text 1])"
  by (simp add: Text_def init_def prepare_def prepare_image_def strings_Trim_def Let_def
      with_path_fields engine_ok_answers)

lemma Text_ok_relang:
  "Text engine_ok (SetLanguage (with_path\<lparr>pixImage := Some 3, Initialized := True\<rparr>) [''eng'', ''deu'']) h =
     ((''Hello World'', None),
      with_path\<lparr>pixImage := Some 3, Initialized := True, Languages := [''eng'', ''deu'']\<rparr>,
      h @ [C_Init 1 (Some ''eng+deu'') None, C_SetPixImage 1 3, C_UTF8Text 1])"
  by (simp add: Text_def init_def prepare_def prepare_image_def strings_Trim_def Let_def
      SetLanguage_def charLangs_def charConfig_def
      with_path_fields engine_ok_answers engine_ok_Stat)

lemma HOCRText_ok:
  "HOCRText engine_ok with_path h =
     ((CHR 0x0A # ''<p>Hello World</p>'' @ [CHR 0x0A], None),
      with_path\<lparr>pixImage := Some 3, Initialized := True\<rparr>,
      h @ [C_Init 1 None None, C_SetImage 1 ''sample.png'', C_HOCRText 1])"
  by (simp add: HOCRText_def init_def prepare_def prepare_image_def Let_def
      with_path_fields with_path_init_args engine_ok_answers engine_ok_Stat)

section \<open>The image source setters\<close>



section \<open>Initialisation\<close>

text \<open>
  Claim C2, as amended. On an initialised client \<^verbatim>\<open>init\<close> returns success, changes
  nothing and calls nothing, and two extractions in a row call \<^verbatim>\<open>C.Init\<close> not at all. On
  a client that is not initialised and whose \<^verbatim>\<open>C.Init\<close> answers zero, two extractions in
  a row call \<^verbatim>\<open>C.Init\<close> exactly once: it is the first call of the first extraction, and
  the second extraction makes none.
\<close>

theorem init_once:
  "(Initialized c \<longrightarrow> init e c h = (None, c, h))
   \<and> (Initialized c \<and> Text e c h = (r1, c1, h1) \<and> Text e c1 h1 = (r2, c2, h2) \<longrightarrow>
        filter is_Init h2 = filter is_Init h)
   \<and> (\<not> Initialized c \<and> Init_res e h (api c) (charLangs c) (charConfig e c h) = 0
        \<and> Text e c h = (r1, c1, h1) \<and> Text e c1 h1 = (r2, c2, h2) \<longrightarrow>
        (\<exists>hs1 hs2. h1 = h @ C_Init (api c) (charLangs c) (charConfig e c h) # hs1
            \<and> h2 = h1 @ hs2 \<and> filter is_Init hs1 = [] \<and> filter is_Init hs2 = [])
        \<and> length (filter is_Init h2) = Suc (length (filter is_Init h)))"
proof (intro conjI impI)
  assume "Initialized c"
  then show "init e c h = (None, c, h)" by (simp add: init_def)
next
  assume a: "Initialized c \<and> Text e c h = (r1, c1, h1) \<and> Text e c1 h1 = (r2, c2, h2)"
  from a Text_history [of e c h r1 c1 h1] obtain hs1 where
    1: "h1 = h @ hs1" "filter is_Init hs1 = []" "Initialized c1"
    by auto
  from a 1 Text_history [of e c1 h1 r2 c2 h2] obtain hs2 where
    2: "h2 = h1 @ hs2" "filter is_Init hs2 = []"
    by auto
  from 1 2 show "filter is_Init h2 = filter is_Init h" by simp
next
  assume a: "\<not> Initialized c \<and> Init_res e h (api c) (charLangs c) (charConfig e c h) = 0
        \<and> Text e c h = (r1, c1, h1) \<and> Text e c1 h1 = (r2, c2, h2)"
  from a Text_history [of e c h r1 c1 h1] obtain hs1 where
    1: "h1 = h @ C_Init (api c) (charLangs c) (charConfig e c h) # hs1"
      "filter is_Init hs1 = []" "Initialized c1"
    by auto
  from a 1 Text_history [of e c1 h1 r2 c2 h2] obtain hs2 where
    2: "h2 = h1 @ hs2" "filter is_Init hs2 = []"
    by auto
  from 1 2 show "\<exists>hs1 hs2. h1 = h @ C_Init (api c) (charLangs c) (charConfig e c h) # hs1
            \<and> h2 = h1 @ hs2 \<and> filter is_Init hs1 = [] \<and> filter is_Init hs2 = []"
    by blast
  from 1 2 show "length (filter is_Init h2) = Suc (length (filter is_Init h))" by simp
qed

theorem init_once_witness:
  "Initialized (with_path\<lparr>pixImage := Some 3, Initialized := True\<rparr>)
   \<and> init engine_ok (with_path\<lparr>pixImage := Some 3, Initialized := True\<rparr>) [C_Create] =
       (None, with_path\<lparr>pixImage := Some 3, Initialized := True\<rparr>, [C_Create])
   \<and> \<not> Initialized with_path
   \<and> Init_res engine_ok [C_Create] (api with_path) (charLangs with_path)
        (charConfig engine_ok with_path [C_Create]) = 0
   \<and> Text engine_ok with_path [C_Create] =
       ((''Hello World'', None), with_path\<lparr>pixImage := Some 3, Initialized := True\<rparr>,
        [C_Create, C_Init 1 None None, C_SetImage 1 ''sample.png'', C_UTF8Text 1])
   \<and> Text engine_ok (with_path\<lparr>pixImage := Some 3, Initialized := True\<rparr>)
        [C_Create, C_Init 1 None None, C_SetImage 1 ''sample.png'', C_UTF8Text 1] =
       ((''Hello World'', None), with_path\<lparr>pixImage := Some 3, Initialized := True\<rparr>,
        [C_Create, C_Init 1 None None, C_SetImage 1 ''sample.png'', C_UTF8Text 1,
         C_SetPixImage 1 3, C_UTF8Text 1])
   \<and> length (filter is_Init
        [C_Create, C_Init 1 None None, C_SetImage 1 ''sample.png'', C_UTF8Text 1,
         C_SetPixImage 1 3, C_UTF8Text 1]) = Suc (length (filter is_Init [C_Create]))"
  using init_once [of "with_path\<lparr>pixImage := Some 3, Initialized := True\<rparr>" engine_ok "[C_Create]"]
    init_once [of with_path engine_ok "[C_Create]" "(''Hello World'', None)"
      "with_path\<lparr>pixImage := Some 3, Initialized := True\<rparr>"
      "[C_Create, C_Init 1 None None, C_SetImage 1 ''sample.png'', C_UTF8Text 1]"
      "(''Hello World'', None)" "with_path\<lparr>pixImage := Some 3, Initialized := True\<rparr>"
      "[C_Create, C_Init 1 None None, C_SetImage 1 ''sample.png'', C_UTF8Text 1,
         C_SetPixImage 1 3, C_UTF8Text 1]"]
    Text_ok_first [of "[C_Create]"]
    Text_ok_second [of "[C_Create, C_Init 1 None None, C_SetImage 1 ''sample.png'', C_UTF8Text 1]"]
  by (simp add: with_path_fields engine_ok_answers)

text \<open>
  With an engine whose initialisation fails, \<^verbatim>\<open>Initialized\<close> stays false and each of two
  extractions in a row calls \<^verbatim>\<open>C.Init\<close>: twice in all.
\<close>

theorem init_twice_counterexample:
  "filter is_Init
     (snd (snd (Text engine_broken (fst (snd (Text engine_broken with_path [C_Create])))
                  (snd (snd (Text engine_broken with_path [C_Create]))))))
   = [C_Init 1 None None, C_Init 1 None None]"
proof -
  have a: "Text engine_broken with_path h = (([], Some (InitFailed (- 1))), with_path, h @ [C_Init 1 None None])" for h
    by (simp add: Text_def init_def charLangs_def charConfig_def with_path_simps engine_broken_def
      engine_ok_def)
  show ?thesis by (simp add: a)
qed

text \<open>
  Claim C3. \<^verbatim>\<open>SetLanguage\<close> replaces \<^verbatim>\<open>Languages\<close> and sets \<^verbatim>\<open>Initialized\<close> to false, so
  the next extraction, of text or of hOCR, starts with a call of \<^verbatim>\<open>C.Init\<close> on the new
  languages, and makes no other. This is so also for a client that a successful
  extraction has left initialised.
\<close>

theorem SetLanguage_forces_init:
  "Languages (SetLanguage c langs) = langs
   \<and> \<not> Initialized (SetLanguage c langs)
   \<and> (\<exists>hs. snd (snd (Text e (SetLanguage c langs) h)) =
              h @ C_Init (api c) (charLangs (SetLanguage c langs))
                    (charConfig e (SetLanguage c langs) h) # hs
            \<and> filter is_Init hs = [])
   \<and> (\<exists>hs. snd (snd (HOCRText e (SetLanguage c langs) h)) =
              h @ C_Init (api c) (charLangs (SetLanguage c langs))
                    (charConfig e (SetLanguage c langs) h) # hs
            \<and> filter is_Init hs = [])
   \<and> (Text e c0 h0 = ((out, None), c, h) \<longrightarrow> Initialized c)"
proof (intro conjI impI)
  show "Languages (SetLanguage c langs) = langs" by (simp add: SetLanguage_def)
  show n: "\<not> Initialized (SetLanguage c langs)" by (simp add: SetLanguage_def)
  have a: "api (SetLanguage c langs) = api c" by (simp add: SetLanguage_def)
  obtain r c2 h2 where t: "Text e (SetLanguage c langs) h = (r, c2, h2)"
    by (cases "Text e (SetLanguage c langs) h") auto
  from Text_history [OF t] n a t
  show "\<exists>hs. snd (snd (Text e (SetLanguage c langs) h)) =
              h @ C_Init (api c) (charLangs (SetLanguage c langs))
                    (charConfig e (SetLanguage c langs) h) # hs
            \<and> filter is_Init hs = []"
    by auto
  obtain r' c2' h2' where t': "HOCRText e (SetLanguage c langs) h = (r', c2', h2')"
    by (cases "HOCRText e (SetLanguage c langs) h") auto
  from HOCRText_history [OF t'] n a t'
  show "\<exists>hs. snd (snd (HOCRText e (SetLanguage c langs) h)) =
              h @ C_Init (api c) (charLangs (SetLanguage c langs))
                    (charConfig e (SetLanguage c langs) h) # hs
            \<and> filter is_Init hs = []"
    by auto
next
  assume s: "Text e c0 h0 = ((out, None), c, h)"
  from Text_result [OF s] obtain r0 c1 h1 rp hp where
    i: "init e c0 h0 = (None, c1, h1)" and p: "prepare e c1 h1 = (rp, c, hp)"
    by auto
  from init_result [OF i] have "Initialized c1" by (auto split: if_splits)
  with prepare_fields [OF p] show "Initialized c" by auto
qed

theorem SetLanguage_forces_init_witness:
  "Text engine_ok with_path [C_Create] =
       ((''Hello World'', None), with_path\<lparr>pixImage := Some 3, Initialized := True\<rparr>,
        [C_Create, C_Init 1 None None, C_SetImage 1 ''sample.png'', C_UTF8Text 1])
   \<and> Initialized (with_path\<lparr>pixImage := Some 3, Initialized := True\<rparr>)
   \<and> \<not> Initialized (SetLanguage (with_path\<lparr>pixImage := Some 3, Initialized := True\<rparr>)
          [''eng'', ''deu''])
   \<and> snd (snd (Text engine_ok
        (SetLanguage (with_path\<lparr>pixImage := Some 3, Initialized := True\<rparr>) [''eng'', ''deu''])
        [C_Create, C_Init 1 None None, C_SetImage 1 ''sample.png'', C_UTF8Text 1])) =
       [C_Create, C_Init 1 None None, C_SetImage 1 ''sample.png'', C_UTF8Text 1,
        C_Init 1 (Some ''eng+deu'') None, C_SetPixImage 1 3, C_UTF8Text 1]"
  using SetLanguage_forces_init [of "with_path\<lparr>pixImage := Some 3, Initialized := True\<rparr>"
      "[''eng'', ''deu'']" engine_ok
      "[C_Create, C_Init 1 None None, C_SetImage 1 ''sample.png'', C_UTF8Text 1]"
      with_path "[C_Create]" "''Hello World''"]
    Text_ok_first [of "[C_Create]"]
    Text_ok_relang [of "[C_Create, C_Init 1 None None, C_SetImage 1 ''sample.png'', C_UTF8Text 1]"]
  by simp

text \<open>
  Claim C4. \<^verbatim>\<open>SetConfigFile\<close> returns an error and leaves the client as it was when
  \<^verbatim>\<open>os.Stat\<close> fails on the path (so when the path does not exist) and when the path is a
  directory; otherwise it stores the path and sets \<^verbatim>\<open>Initialized\<close> to false.
\<close>

theorem SetConfigFile_checks_path:
  "(os_Stat e h fpath = Inl err \<longrightarrow>
      SetConfigFile e c fpath h = (Some (StatError err), c))
   \<and> (os_Stat e h fpath = Inr info \<and> IsDir info \<longrightarrow>
      SetConfigFile e c fpath h = (Some ConfigIsDirectory, c))
   \<and> (os_Stat e h fpath = Inr info \<and> \<not> IsDir info \<longrightarrow>
      SetConfigFile e c fpath h = (None, c\<lparr>Initialized := False, ConfigFilePath := fpath\<rparr>))"
  by (simp add: SetConfigFile_def)

theorem SetConfigFile_checks_path_witness:
  "os_Stat engine_ok [] ''missing.conf'' = Inl ErrNotExist
   \<and> SetConfigFile engine_ok (fresh\<lparr>Initialized := True\<rparr>) ''missing.conf'' [] =
       (Some (StatError ErrNotExist), fresh\<lparr>Initialized := True\<rparr>)
   \<and> os_Stat engine_ok [] ''tessdata'' = Inr (FileInfo True) \<and> IsDir (FileInfo True)
   \<and> SetConfigFile engine_ok (fresh\<lparr>Initialized := True\<rparr>) ''tessdata'' [] =
       (Some ConfigIsDirectory, fresh\<lparr>Initialized := True\<rparr>)
   \<and> os_Stat engine_ok [] ''ocr.conf'' = Inr (FileInfo False) \<and> \<not> IsDir (FileInfo False)
   \<and> SetConfigFile engine_ok (fresh\<lparr>Initialized := True\<rparr>) ''ocr.conf'' [] =
       (None, fresh\<lparr>Initialized := False, ConfigFilePath := ''ocr.conf''\<rparr>)"
  using SetConfigFile_checks_path [of engine_ok "[]" "''missing.conf''" ErrNotExist
      "fresh\<lparr>Initialized := True\<rparr>" "FileInfo True"]
    SetConfigFile_checks_path [of engine_ok "[]" "''tessdata''" ErrNotExist
      "fresh\<lparr>Initialized := True\<rparr>" "FileInfo True"]
    SetConfigFile_checks_path [of engine_ok "[]" "''ocr.conf''" ErrNotExist
      "fresh\<lparr>Initialized := True\<rparr>" "FileInfo False"]
  by (simp add: engine_ok_Stat)

text \<open>
  Claim C7. When the client is not initialised and the engine's init answers a code
  other than zero, \<^verbatim>\<open>init\<close> returns the error carrying that code, after the one call
  of \<^verbatim>\<open>C.Init\<close>, and the client is unchanged: \<^verbatim>\<open>Initialized\<close> is still false.
\<close>

theorem init_failure:
  assumes "\<not> Initialized client"
    and "Init_res e h (api client) (charLangs client) (charConfig e client h) = res"
    and "res \<noteq> 0"
  shows "init e client h =
           (Some (InitFailed res), client,
            h @ [C_Init (api client) (charLangs client) (charConfig e client h)])
         \<and> \<not> Initialized (fst (snd (init e client h)))"
  using assms by (simp add: init_def Let_def)

theorem init_failure_witness:
  "\<not> Initialized fresh
   \<and> Init_res engine_broken [C_Create] (api fresh) (charLangs fresh)
        (charConfig engine_broken fresh [C_Create]) = - 1
   \<and> (- 1 :: 32 word) \<noteq> 0
   \<and> init engine_broken fresh [C_Create] =
        (Some (InitFailed (- 1)), fresh, [C_Create, C_Init 1 None None])
   \<and> \<not> Initialized (fst (snd (init engine_broken fresh [C_Create])))"
proof -
  have a: "\<not> Initialized fresh" by (simp add: fresh_simps)
  have b: "Init_res engine_broken [C_Create] (api fresh) (charLangs fresh)
        (charConfig engine_broken fresh [C_Create]) = - 1"
    by (simp add: engine_broken_def engine_ok_def)
  have c: "(- 1 :: 32 word) \<noteq> 0" by simp
  have d: "charLangs fresh = None" by (simp add: charLangs_def fresh_simps)
  have e: "charConfig engine_broken fresh [C_Create] = None"
    by (simp add: charConfig_def fresh_simps engine_broken_def engine_ok_def)
  have f: "api fresh = 1" by (simp add: fresh_simps)
  show ?thesis using init_failure [OF a b c] a b c d e f by simp
qed

section \<open>Binding the image\<close>

text \<open>
  Claim C9, as amended. With no bound handle, \<^verbatim>\<open>prepare\<close> takes the handle from the byte
  buffer when the buffer is not empty. An empty buffer is no error: it counts as no
  buffer, and the path decides. With no path the error is "invalid path will be set";
  with a path that does not exist it is "file does not exist"; both leave the client
  and the history as they were. Otherwise the handle is taken from the path.
\<close>

theorem prepare_image_source:
  assumes "pixImage c = None"
  shows "(ImageData c \<noteq> [] \<longrightarrow>
            prepare_image e c h =
              (None, c\<lparr>pixImage := SetImageFromBuffer_res e h (api c) (ImageData c)\<rparr>,
               h @ [C_SetImageFromBuffer (api c) (ImageData c)]))
       \<and> (ImageData c = [] \<and> ImagePath c = [] \<longrightarrow>
            prepare_image e c h = (Some InvalidPath, c, h)
            \<and> prepare e c h = (Some InvalidPath, c, h))
       \<and> (ImageData c = [] \<and> ImagePath c \<noteq> [] \<and> os_Stat e h (ImagePath c) = Inl ErrNotExist \<longrightarrow>
            prepare_image e c h = (Some FileDoesNotExist, c, h)
            \<and> prepare e c h = (Some FileDoesNotExist, c, h))
       \<and> (ImageData c = [] \<and> ImagePath c \<noteq> [] \<and> os_Stat e h (ImagePath c) \<noteq> Inl ErrNotExist \<longrightarrow>
            prepare_image e c h =
              (None, c\<lparr>pixImage := SetImage_res e h (api c) (ImagePath c)\<rparr>,
               h @ [C_SetImage (api c) (ImagePath c)]))"
proof -
  have ne: "os_Stat e h (ImagePath c) \<noteq> Inl ErrNotExist \<Longrightarrow>
            \<not> os_IsNotExist (os_Stat e h (ImagePath c))"
    by (cases "os_Stat e h (ImagePath c)" rule: os_IsNotExist.cases) simp_all
  show ?thesis
    using assms ne by (simp add: prepare_image_def prepare_def Let_def)
qed

theorem prepare_image_source_witness:
  "pixImage (fresh\<lparr>ImageData := [1, 2, 3]\<rparr>) = None
   \<and> ImageData (fresh\<lparr>ImageData := [1, 2, 3]\<rparr>) \<noteq> []
   \<and> prepare_image engine_ok (fresh\<lparr>ImageData := [1, 2, 3]\<rparr>) [C_Create] =
       (None, fresh\<lparr>ImageData := [1, 2, 3], pixImage := Some 2\<rparr>,
        [C_Create, C_SetImageFromBuffer 1 [1, 2, 3]])
   \<and> pixImage fresh = None \<and> ImageData fresh = [] \<and> ImagePath fresh = []
   \<and> prepare engine_ok fresh [C_Create] = (Some InvalidPath, fresh, [C_Create])
   \<and> pixImage (fresh\<lparr>ImagePath := ''missing.png''\<rparr>) = None
   \<and> os_Stat engine_ok [C_Create] ''missing.png'' = Inl ErrNotExist
   \<and> prepare engine_ok (fresh\<lparr>ImagePath := ''missing.png''\<rparr>) [C_Create] =
       (Some FileDoesNotExist, fresh\<lparr>ImagePath := ''missing.png''\<rparr>, [C_Create])
   \<and> pixImage with_path = None
   \<and> os_Stat engine_ok [C_Create] ''sample.png'' \<noteq> Inl ErrNotExist
   \<and> prepare_image engine_ok with_path [C_Create] =
       (None, with_path\<lparr>pixImage := Some 3\<rparr>, [C_Create, C_SetImage 1 ''sample.png''])"
proof -
  have s: "os_Stat engine_ok [C_Create] ''missing.png'' = Inl ErrNotExist"
    by (simp add: engine_ok_def)
  have p: "pixImage (fresh\<lparr>ImageData := [1, 2, 3]\<rparr>) = None" "pixImage fresh = None"
    "pixImage (fresh\<lparr>ImagePath := ''missing.png''\<rparr>) = None" "pixImage with_path = None"
    by (simp_all add: fresh_simps with_path_fields)
  show ?thesis
    using prepare_image_source [OF p(1), of engine_ok "[C_Create]"]
      prepare_image_source [OF p(2), of engine_ok "[C_Create]"]
      prepare_image_source [OF p(3), of engine_ok "[C_Create]"]
      prepare_image_source [OF p(4), of engine_ok "[C_Create]"]
    by (simp add: s engine_ok_Stat engine_ok_answers with_path_fields fresh_simps)
qed

text \<open>
  An empty buffer does not make the binding fail: with an empty buffer and the path of
  a file that exists, \<^verbatim>\<open>prepare\<close> returns no error and binds the image of the path.
\<close>

theorem empty_buffer_counterexample:
  "fst (prepare engine_ok with_path [C_Create]) = None
   \<and> snd (snd (prepare engine_ok with_path [C_Create])) = [C_Create, C_SetImage 1 ''sample.png'']"
  by (simp add: prepare_def prepare_image_def with_path_simps engine_ok_def)

section \<open>Extraction\<close>

text \<open>
  Claim C5. When \<^verbatim>\<open>Text\<close> succeeds, its last call is \<^verbatim>\<open>C.UTF8Text\<close>. With \<^verbatim>\<open>Trim\<close> set
  the result is the engine's answer trimmed of newlines: the answer is the result
  between a run of newlines and a run of newlines, and the result, when not empty,
  neither starts nor ends with a newline. With \<^verbatim>\<open>Trim\<close> unset the result is the engine's
  answer.
\<close>

theorem Text_trims_newlines:
  assumes "Text e c h = ((out, None), c1, h1)"
  shows "\<exists>h2. h1 = h2 @ [C_UTF8Text (api c)]
           \<and> (if Trim c
               then out = strings_Trim (UTF8Text_res e h2 (api c)) [CHR 0x0A]
                    \<and> (\<exists>a b. UTF8Text_res e h2 (api c) =
                           replicate a (CHR 0x0A) @ out @ replicate b (CHR 0x0A))
                    \<and> (out = [] \<or> (hd out \<noteq> CHR 0x0A \<and> last out \<noteq> CHR 0x0A))
               else out = UTF8Text_res e h2 (api c))"
proof -
  from Text_history [OF assms] have f: "api c1 = api c" "Trim c1 = Trim c" by auto
  from Text_result [OF assms] obtain hp where
    h1: "h1 = hp @ [C_UTF8Text (api c1)]" and
    o: "out = (if Trim c1 then strings_Trim (UTF8Text_res e hp (api c1)) [CHR 0x0A]
               else UTF8Text_res e hp (api c1))"
    by auto
  show ?thesis
  proof (cases "Trim c")
    case True
    with o f have out: "out = strings_Trim (UTF8Text_res e hp (api c)) [CHR 0x0A]" by simp
    from strings_Trim_single [of "UTF8Text_res e hp (api c)" "CHR 0x0A"] out
    have r: "\<exists>a b. UTF8Text_res e hp (api c) =
               replicate a (CHR 0x0A) @ out @ replicate b (CHR 0x0A)"
      by simp
    from strings_Trim_single_ends [of "UTF8Text_res e hp (api c)" "CHR 0x0A"] out
    have "out = [] \<or> (hd out \<noteq> CHR 0x0A \<and> last out \<noteq> CHR 0x0A)"
      by auto
    with True h1 f out r show ?thesis by auto
  next
    case False
    with o f h1 show ?thesis by auto
  qed
qed

theorem Text_trims_newlines_witness:
  "Text engine_ok with_path [C_Create] =
       ((''Hello World'', None), with_path\<lparr>pixImage := Some 3, Initialized := True\<rparr>,
        [C_Create, C_Init 1 None None, C_SetImage 1 ''sample.png'', C_UTF8Text 1])
   \<and> Trim with_path
   \<and> ''Hello World'' = strings_Trim (CHR 0x0A # ''Hello World'' @ [CHR 0x0A]) [CHR 0x0A]
   \<and> Text engine_ok (with_path\<lparr>Trim := False\<rparr>) [C_Create] =
       ((CHR 0x0A # ''Hello World'' @ [CHR 0x0A], None),
        with_path\<lparr>pixImage := Some 3, Initialized := True, Trim := False\<rparr>,
        [C_Create, C_Init 1 None None, C_SetImage 1 ''sample.png'', C_UTF8Text 1])
   \<and> \<not> Trim (with_path\<lparr>Trim := False\<rparr>)
   \<and> CHR 0x0A # ''Hello World'' @ [CHR 0x0A] =
       UTF8Text_res engine_ok [C_Create, C_Init 1 None None, C_SetImage 1 ''sample.png'']
         (api (with_path\<lparr>Trim := False\<rparr>))"
proof -
  have a: "Text engine_ok with_path [C_Create] =
       ((''Hello World'', None), with_path\<lparr>pixImage := Some 3, Initialized := True\<rparr>,
        [C_Create, C_Init 1 None None, C_SetImage 1 ''sample.png''] @ [C_UTF8Text 1])"
    using Text_ok_first [of "[C_Create]"] by simp
  have b: "Text engine_ok (with_path\<lparr>Trim := False\<rparr>) [C_Create] =
       ((CHR 0x0A # ''Hello World'' @ [CHR 0x0A], None),
        with_path\<lparr>pixImage := Some 3, Initialized := True, Trim := False\<rparr>,
        [C_Create, C_Init 1 None None, C_SetImage 1 ''sample.png''] @ [C_UTF8Text 1])"
    using Text_ok_untrimmed [of "[C_Create]"] by simp
  from Text_trims_newlines [OF a] with_path_fields(4) obtain h2 where
    "''Hello World'' = strings_Trim (UTF8Text_res engine_ok h2 (api with_path)) [CHR 0x0A]"
    by metis
  then have 1: "''Hello World'' = strings_Trim (CHR 0x0A # ''Hello World'' @ [CHR 0x0A]) [CHR 0x0A]"
    by (simp only: engine_ok_answers)
  have nt: "\<not> Trim (with_path\<lparr>Trim := False\<rparr>)" by simp
  from Text_trims_newlines [OF b] nt obtain h3 where
    "CHR 0x0A # ''Hello World'' @ [CHR 0x0A] =
       UTF8Text_res engine_ok h3 (api (with_path\<lparr>Trim := False\<rparr>))"
    by metis
  then have 2: "CHR 0x0A # ''Hello World'' @ [CHR 0x0A] =
       UTF8Text_res engine_ok [C_Create, C_Init 1 None None, C_SetImage 1 ''sample.png'']
         (api (with_path\<lparr>Trim := False\<rparr>))"
    by (simp only: engine_ok_answers)
  have a': "Text engine_ok with_path [C_Create] =
       ((''Hello World'', None), with_path\<lparr>pixImage := Some 3, Initialized := True\<rparr>,
        [C_Create, C_Init 1 None None, C_SetImage 1 ''sample.png'', C_UTF8Text 1])"
    using a by simp
  have b': "Text engine_ok (with_path\<lparr>Trim := False\<rparr>) [C_Create] =
       ((CHR 0x0A # ''Hello World'' @ [CHR 0x0A], None),
        with_path\<lparr>pixImage := Some 3, Initialized := True, Trim := False\<rparr>,
        [C_Create, C_Init 1 None None, C_SetImage 1 ''sample.png'', C_UTF8Text 1])"
    using b by simp
  from a' with_path_fields(4) 1 b' nt 2 show ?thesis by blast
qed

text \<open>
  Claim C6, as amended. On a client with no image path, no image bytes and no bound
  handle, \<^verbatim>\<open>Text\<close> never calls an extraction of the engine. It returns "invalid path will
  be set" when the client is initialised or the engine's init answers zero; when the
  engine's init answers another code, it returns the error of \<^verbatim>\<open>init\<close> with that code.
\<close>

theorem Text_without_image:
  assumes "pixImage c = None" and "ImageData c = []" and "ImagePath c = []"
  shows "(Initialized c \<longrightarrow> Text e c h = (([], Some InvalidPath), c, h))
       \<and> (\<not> Initialized c \<and> Init_res e h (api c) (charLangs c) (charConfig e c h) = 0 \<longrightarrow>
            Text e c h =
              (([], Some InvalidPath), c\<lparr>Initialized := True\<rparr>,
               h @ [C_Init (api c) (charLangs c) (charConfig e c h)]))
       \<and> (\<not> Initialized c \<and> Init_res e h (api c) (charLangs c) (charConfig e c h) \<noteq> 0 \<longrightarrow>
            Text e c h =
              (([], Some (InitFailed (Init_res e h (api c) (charLangs c) (charConfig e c h)))), c,
               h @ [C_Init (api c) (charLangs c) (charConfig e c h)]))
       \<and> filter is_extraction (snd (snd (Text e c h))) = filter is_extraction h"
  using assms
  by (simp add: Text_def init_def prepare_def prepare_image_def Let_def)

theorem Text_without_image_witness:
  "pixImage fresh = None \<and> ImageData fresh = [] \<and> ImagePath fresh = []
   \<and> \<not> Initialized fresh
   \<and> Init_res engine_ok [C_Create] (api fresh) (charLangs fresh)
        (charConfig engine_ok fresh [C_Create]) = 0
   \<and> Text engine_ok fresh [C_Create] =
        (([], Some InvalidPath), fresh\<lparr>Initialized := True\<rparr>, [C_Create, C_Init 1 None None])
   \<and> Text engine_ok (fresh\<lparr>Initialized := True\<rparr>) [C_Create] =
        (([], Some InvalidPath), fresh\<lparr>Initialized := True\<rparr>, [C_Create])
   \<and> Text engine_broken fresh [C_Create] =
        (([], Some (InitFailed (- 1))), fresh, [C_Create, C_Init 1 None None])
   \<and> filter is_extraction (snd (snd (Text engine_ok fresh [C_Create]))) = []"
proof -
  have a: "pixImage fresh = None" "ImageData fresh = []" "ImagePath fresh = []"
    "\<not> Initialized fresh" "api fresh = 1" "charLangs fresh = None"
    by (simp_all add: fresh_simps charLangs_def)
  have b: "charConfig engine_ok fresh h = None" "charConfig engine_broken fresh h = None" for h
    by (simp_all add: charConfig_def fresh_simps engine_broken_def engine_ok_def)
  have c: "Init_res engine_ok h x l g = 0" "Init_res engine_broken h x l g = - 1" for h x l g
    by (simp_all add: engine_broken_def engine_ok_def)
  have d: "pixImage (fresh\<lparr>Initialized := True\<rparr>) = None"
    "ImageData (fresh\<lparr>Initialized := True\<rparr>) = []"
    "ImagePath (fresh\<lparr>Initialized := True\<rparr>) = []"
    by (simp_all add: fresh_simps)
  show ?thesis
    using Text_without_image [OF a(1-3), of engine_ok "[C_Create]"]
      Text_without_image [OF d, of engine_ok "[C_Create]"]
      Text_without_image [OF a(1-3), of engine_broken "[C_Create]"]
    by (simp add: a b c)
qed

text \<open>
  With an engine whose initialisation fails, the error of such a client is the one
  of \<^verbatim>\<open>init\<close>, not "invalid path will be set".
\<close>

theorem Text_without_image_counterexample:
  "pixImage fresh = None \<and> ImageData fresh = [] \<and> ImagePath fresh = []
   \<and> Text engine_broken fresh [C_Create] =
       (([], Some (InitFailed (- 1))), fresh, [C_Create, C_Init 1 None None])
   \<and> snd (fst (Text engine_broken fresh [C_Create])) \<noteq> Some InvalidPath"
  by (simp add: Text_def init_def charLangs_def charConfig_def fresh_simps engine_broken_def
      engine_ok_def)

text \<open>
  Claim C10. When \<^verbatim>\<open>HOCRText\<close> succeeds, its last call is \<^verbatim>\<open>C.HOCRText\<close> and the result
  is the engine's answer as it is. Whatever \<^verbatim>\<open>Trim\<close> is set to, \<^verbatim>\<open>HOCRText\<close> returns the
  same result and makes the same calls.
\<close>

theorem HOCRText_untrimmed:
  "(HOCRText e c h = ((out, None), c1, h1) \<longrightarrow>
      (\<exists>h2. h1 = h2 @ [C_HOCRText (api c)] \<and> out = HOCRText_res e h2 (api c)))
   \<and> fst (HOCRText e (c\<lparr>Trim := t\<rparr>) h) = fst (HOCRText e c h)
   \<and> snd (snd (HOCRText e (c\<lparr>Trim := t\<rparr>) h)) = snd (snd (HOCRText e c h))"
proof (intro conjI impI)
  assume a: "HOCRText e c h = ((out, None), c1, h1)"
  from HOCRText_result [OF a] obtain r0 c0 h0 hp where
    i: "init e c h = (r0, c0, h0)" and p: "prepare e c0 h0 = (None, c1, hp)" and
    h1: "h1 = hp @ [C_HOCRText (api c1)]" and o: "out = HOCRText_res e hp (api c1)"
    by auto
  from init_result [OF i] have "api c0 = api c" by (auto split: if_splits)
  with prepare_fields [OF p] have "api c1 = api c" by auto
  with h1 o show "\<exists>h2. h1 = h2 @ [C_HOCRText (api c)] \<and> out = HOCRText_res e h2 (api c)"
    by simp
next
  show "fst (HOCRText e (c\<lparr>Trim := t\<rparr>) h) = fst (HOCRText e c h)"
    by (simp add: HOCRText_def init_Trim prepare_Trim split: prod.splits option.splits)
  show "snd (snd (HOCRText e (c\<lparr>Trim := t\<rparr>) h)) = snd (snd (HOCRText e c h))"
    by (simp add: HOCRText_def init_Trim prepare_Trim split: prod.splits option.splits)
qed

theorem HOCRText_untrimmed_witness:
  "HOCRText engine_ok with_path [C_Create] =
       ((CHR 0x0A # ''<p>Hello World</p>'' @ [CHR 0x0A], None),
        with_path\<lparr>pixImage := Some 3, Initialized := True\<rparr>,
        [C_Create, C_Init 1 None None, C_SetImage 1 ''sample.png'', C_HOCRText 1])
   \<and> Trim with_path
   \<and> CHR 0x0A # ''<p>Hello World</p>'' @ [CHR 0x0A] =
       HOCRText_res engine_ok [C_Create, C_Init 1 None None, C_SetImage 1 ''sample.png'']
         (api with_path)
   \<and> fst (HOCRText engine_ok (with_path\<lparr>Trim := False\<rparr>) [C_Create]) =
       fst (HOCRText engine_ok with_path [C_Create])"
proof -
  have a: "HOCRText engine_ok with_path [C_Create] =
       ((CHR 0x0A # ''<p>Hello World</p>'' @ [CHR 0x0A], None),
        with_path\<lparr>pixImage := Some 3, Initialized := True\<rparr>,
        [C_Create, C_Init 1 None None, C_SetImage 1 ''sample.png''] @ [C_HOCRText 1])"
    using HOCRText_ok [of "[C_Create]"] by simp
  note t = HOCRText_untrimmed [of engine_ok with_path "[C_Create]"
        "CHR 0x0A # ''<p>Hello World</p>'' @ [CHR 0x0A]"
        "with_path\<lparr>pixImage := Some 3, Initialized := True\<rparr>"
        "[C_Create, C_Init 1 None None, C_SetImage 1 ''sample.png''] @ [C_HOCRText 1]" False]
  from t a have 1: "CHR 0x0A # ''<p>Hello World</p>'' @ [CHR 0x0A] =
       HOCRText_res engine_ok [C_Create, C_Init 1 None None, C_SetImage 1 ''sample.png'']
         (api with_path)"
    by (simp add: engine_ok_answers)
  from t have 2: "fst (HOCRText engine_ok (with_path\<lparr>Trim := False\<rparr>) [C_Create]) =
       fst (HOCRText engine_ok with_path [C_Create])"
    by blast
  have a': "HOCRText engine_ok with_path [C_Create] =
       ((CHR 0x0A # ''<p>Hello World</p>'' @ [CHR 0x0A], None),
        with_path\<lparr>pixImage := Some 3, Initialized := True\<rparr>,
        [C_Create, C_Init 1 None None, C_SetImage 1 ''sample.png'', C_HOCRText 1])"
    using a by simp
  from a' with_path_fields(4) 1 2 show ?thesis by blast
qed

section \<open>Closing\<close>

text \<open>
  What one call of \<^verbatim>\<open>Close\<close> does, and a second call right after it: the engine handle
  is cleared and freed by each call, with no test and no reset of \<^verbatim>\<open>api\<close>; the image
  handle is released by the first call only, behind the nil test that also clears the
  reference.
\<close>

lemma Close_result:
  "Close c h =
     (None, c\<lparr>pixImage := None\<rparr>,
      h @ [C_Clear (api c), C_Free (api c)]
        @ (case pixImage c of None \<Rightarrow> [] | Some p \<Rightarrow> [C_DestroyPixImage p]))
   \<and> Close (fst (snd (Close c h))) (snd (snd (Close c h))) =
     (None, c\<lparr>pixImage := None\<rparr>,
      snd (snd (Close c h)) @ [C_Clear (api c), C_Free (api c)])"
  by (cases c) (simp add: Close_def split: option.splits)

text \<open>
  Claim C8. \<^verbatim>\<open>Close\<close> is to release the engine handle and a bound image handle, and two
  calls of \<^verbatim>\<open>Close\<close> are to release neither handle a second time. The code keeps this
  for the image handle and breaks it for the engine handle. On the client that holds a
  bound image handle after \<^verbatim>\<open>SetImageFromBytes\<close> and one extraction, two calls of
  \<^verbatim>\<open>Close\<close> release the image handle once and free the engine handle twice.
\<close>

theorem Close_twice_frees_engine_twice:
  "snd (snd (Close (fst (snd (Close bound [C_Create]))) (snd (snd (Close bound [C_Create])))))
     = [C_Create, C_Clear 1, C_Free 1, C_DestroyPixImage 2, C_Clear 1, C_Free 1]
   \<and> length (filter (\<lambda>x. x = C_Free (api bound))
        (snd (snd (Close (fst (snd (Close bound [C_Create])))
                     (snd (snd (Close bound [C_Create]))))))) = 2
   \<and> length (filter (\<lambda>x. x = C_DestroyPixImage 2)
        (snd (snd (Close (fst (snd (Close bound [C_Create])))
                     (snd (snd (Close bound [C_Create]))))))) = 1"
  by (simp add: Close_def bound_simps)

end
